theory Spec2Isabelle
  imports Main
begin

section \<open>The event emitter\<close>

text \<open>
  Objects of the content server (origin records, data stores, resource requests) are
  JavaScript objects with identity: a request keeps a reference to the origin record it
  was bound to, also after that record has left the registry. They are kept in three
  heaps (lists; an address is an index, allocation appends and nothing is ever freed).

  \<open>BitstormEmitter\<close> keeps, per object, a table from event names to arrays of callbacks.
  The callbacks the content server registers are its own bound methods, so a callback is
  a tag. A table entry that is \<open>undefined\<close> or \<open>null\<close> is \<open>None\<close>: \<open>emit\<close> tests it
  for truthiness only.
\<close>

type_synonym addr = nat

datatype handler =
    HandleRequestData | HandleRequestError | HandleRequestProgress
  | HandleDataStoreReady | HandleDataStoreError | HandleDataStoreClosing

type_synonym listener_table = "string \<Rightarrow> handler list option"

text \<open>\<open>on(event, callback)\<close>: push the callback on the event's array.\<close>

definition on :: "string \<Rightarrow> handler \<Rightarrow> listener_table \<Rightarrow> listener_table" where
  "on event callback ls =
     ls(event \<mapsto> (case ls event of None \<Rightarrow> [] | Some h \<Rightarrow> h) @ [callback])"

text \<open>
  \<open>removeAllListeners(event)\<close> is \<open>listeners[event] = null\<close>. Called without an
  argument, \<open>event\<close> is \<open>undefined\<close> and the property written is the one named
  \<open>"undefined"\<close>.
\<close>

definition removeAllListeners :: "string option \<Rightarrow> listener_table \<Rightarrow> listener_table" where
  "removeAllListeners event ls =
     ls((case event of None \<Rightarrow> ''undefined'' | Some e \<Rightarrow> e) := None)"

section \<open>Data model\<close>

datatype progress_event =
  ProgressEvent (lengthComputable: bool) (loaded: nat) (total: nat)

text \<open>The second argument of an emitted event: nothing, a string or byte payload, or
  the platform's progress event.\<close>

datatype payload = NoArg | Text string | Info "progress_event option"

text \<open>\<open>(info.loaded / info.total) * 100\<close> is a floating-point value; it is kept as the
  pair it is computed from.\<close>

datatype progress_value = Percent nat nat | Fixed99

datatype message =
    CacheReady string
  | Progress nat progress_value
  | ResourceData nat string string payload string

text \<open>What the content server emits: \<open>emit('error', this, error, requestId)\<close>, the
  request id absent for a data store's error, and \<open>emit('message', this, msg)\<close>.\<close>

datatype notification = OutError payload "nat option" | OutMessage message

datatype exn = TypeError | InvalidStateError

record server_record =
  serverUrl :: string
  loadValue :: int

text \<open>
  \<open>db\<close> is \<open>null\<close> (\<open>None\<close>) or the IndexedDB connection, of which the flag says
  whether its \<open>close()\<close> has been called. \<open>open_state\<close> is the platform side of
  \<open>open()\<close>: which of the callbacks installed by \<open>open\<close> and \<open>handleOpenSuccess\<close> are
  still to come.
\<close>

datatype open_phase = Opening | SetVersion | VersionChange | Opened | OpenFailed

record data_store =
  name :: string
  db :: "bool option"
  ready :: bool
  store_listeners :: listener_table
  open_state :: open_phase

text \<open>
  \<open>pending\<close> is the platform operation whose callbacks the request has installed: the
  object store \<open>get\<close> of \<open>queryDataStore\<close>, the XMLHttpRequest of \<open>downloadData\<close>
  (with the URL it was opened on and its \<open>responseType\<close>), or the write transaction of
  \<open>cacheData\<close>. Of a lookup and of a transfer the platform calls one outcome callback,
  once. The write transaction carries the data its callbacks close over, the number of
  its \<open>put\<close> requests the platform has not answered yet (\<open>cacheData\<close> issues two and
  installs no callback on them), and whether one of them has failed: the error event of
  a request bubbles to \<open>txn.onerror\<close>, and a transaction with a failed request is
  aborted, which answers every request still open with an error event of its own.
\<close>

datatype pending_op =
  Idle | PendingGet | PendingXhr string string | PendingTxn payload nat bool

text \<open>What \<open>new BitstormResourceRequest(store, key, url, type)\<close> sets.\<close>

record bare_request =
  key :: string
  url :: string
  rtype :: string
  store :: addr
  started :: bool

text \<open>The request as \<open>requestResource\<close> completes it (\<open>server\<close>, \<open>clientId\<close>, the
  three subscriptions) before it is started.\<close>

record resource_request = bare_request +
  server :: addr
  clientId :: nat
  listeners :: listener_table
  pending :: pending_op

record content_server =
  dataStores :: "string \<rightharpoonup> addr"
  contentServers :: "addr list"
  records :: "server_record list"
  stores :: "data_store list"
  requests :: "resource_request list"
  out :: "notification list"
  emitted :: "(addr \<times> string) list"

text \<open>
  \<open>dataStores\<close> and \<open>contentServers\<close> are the server's two fields; \<open>out\<close> lists the
  server's own \<open>emit\<close> calls and \<open>emitted\<close> the \<open>emit\<close> calls of the resource requests
  (request, event name), both in order.
\<close>

text \<open>
  \<open>dataStores\<close> is an object literal used as a map, so reading \<open>dataStores[name]\<close>
  finds the entry the server has stored under the name and, failing that, the member
  of that name the object inherits from \<open>Object.prototype\<close>: a function, or for
  \<open>__proto__\<close> the prototype itself. The record's field holds the entries the server
  has stored.
\<close>

definition inherited :: "string \<Rightarrow> bool" where
  "inherited nm \<longleftrightarrow>
     nm \<in> set [''constructor'', ''toString'', ''toLocaleString'', ''valueOf'',
       ''hasOwnProperty'', ''isPrototypeOf'', ''propertyIsEnumerable'', ''__proto__'',
       ''__defineGetter__'', ''__defineSetter__'', ''__lookupGetter__'', ''__lookupSetter__'']"

datatype property = Undefined | Inherited | Own addr

definition lookup :: "content_server \<Rightarrow> string \<Rightarrow> property" where
  "lookup s nm =
     (case dataStores s nm of
        Some st \<Rightarrow> Own st
      | None \<Rightarrow> if inherited nm then Inherited else Undefined)"

text \<open>
  The server as its constructor initialises the two fields. The constructor then calls
  \<open>this.addServer('')\<close> to register the application's own origin, a method the file
  of \<open>BitstormContentServer\<close> does not define; here the empty origin is registered like
  any other, by \<open>addContentServer\<close>.
\<close>

definition empty_server :: content_server where
  "empty_server = \<lparr> dataStores = Map.empty, contentServers = [], records = [],
     stores = [], requests = [], out = [], emitted = [] \<rparr>"

definition upd_record :: "addr \<Rightarrow> (server_record \<Rightarrow> server_record) \<Rightarrow> content_server \<Rightarrow> content_server" where
  "upd_record a f s = s\<lparr> records := (records s)[a := f (records s ! a)] \<rparr>"

definition upd_store :: "addr \<Rightarrow> (data_store \<Rightarrow> data_store) \<Rightarrow> content_server \<Rightarrow> content_server" where
  "upd_store a f s = s\<lparr> stores := (stores s)[a := f (stores s ! a)] \<rparr>"

definition upd_request :: "addr \<Rightarrow> (resource_request \<Rightarrow> resource_request) \<Rightarrow> content_server \<Rightarrow> content_server" where
  "upd_request r f s = s\<lparr> requests := (requests s)[r := f (requests s ! r)] \<rparr>"

definition server_emit :: "notification \<Rightarrow> content_server \<Rightarrow> content_server" where
  "server_emit x s = s\<lparr> out := out s @ [x] \<rparr>"

section \<open>The origin registry\<close>

definition findContentServer :: "content_server \<Rightarrow> string \<Rightarrow> addr option" where
  "findContentServer s u = find (\<lambda>a. serverUrl (records s ! a) = u) (contentServers s)"

definition addContentServer :: "string \<Rightarrow> content_server \<Rightarrow> content_server" where
  "addContentServer u s =
     (if findContentServer s u = None
      then s\<lparr> records := records s @ [\<lparr> serverUrl = u, loadValue = 0 \<rparr>],
              contentServers := contentServers s @ [length (records s)] \<rparr>
      else s)"

fun removeLoop :: "(addr \<Rightarrow> bool) \<Rightarrow> addr list \<Rightarrow> addr list" where
  "removeLoop P [] = []"
| "removeLoop P (x # xs) = (if P x then xs else x # removeLoop P xs)"

definition removeContentServer :: "string \<Rightarrow> content_server \<Rightarrow> content_server" where
  "removeContentServer u s =
     s\<lparr> contentServers := removeLoop (\<lambda>a. serverUrl (records s ! a) = u) (contentServers s) \<rparr>"

text \<open>
  The loop of \<open>chooseContentServer\<close> over the load values from index \<open>i\<close> on: \<open>Inl j\<close>
  when it returns \<open>list[j]\<close> from inside the loop, \<open>Inr minid\<close> when it runs to the end.
  The comparison \<open>lv < minid\<close> is between a load value and an index, as in the source.
\<close>

fun chooseLoop :: "int list \<Rightarrow> nat \<Rightarrow> nat \<Rightarrow> nat + nat" where
  "chooseLoop [] i minid = Inr minid"
| "chooseLoop (lv # lvs) i minid =
     (if lv = 0 then Inl i
      else chooseLoop lvs (i + 1) (if lv < int minid then i else minid))"

definition chooseContentServer :: "content_server \<Rightarrow> addr option" where
  "chooseContentServer s =
     (let list = contentServers s; count = length list
      in case chooseLoop (map (\<lambda>a. loadValue (records s ! a)) list) 0 0 of
           Inl i \<Rightarrow> Some (list ! i)
         | Inr minid \<Rightarrow> if minid < count then Some (list ! minid) else None)"

section \<open>Handlers of the content server\<close>

definition handleRequestData :: "addr \<Rightarrow> payload \<Rightarrow> content_server \<Rightarrow> content_server" where
  "handleRequestData req data s =
     (let s1 = upd_request req (\<lambda>q. q\<lparr> listeners := removeAllListeners None (listeners q) \<rparr>) s;
          s2 = upd_record (server (requests s1 ! req)) (\<lambda>v. v\<lparr> loadValue := loadValue v - 1 \<rparr>) s1;
          q = requests s2 ! req
      in server_emit (OutMessage (ResourceData (clientId q) (url q) (key q) data (rtype q))) s2)"

definition handleRequestError :: "addr \<Rightarrow> payload \<Rightarrow> content_server \<Rightarrow> content_server" where
  "handleRequestError req err s =
     (let s1 = upd_request req (\<lambda>q. q\<lparr> listeners := removeAllListeners None (listeners q) \<rparr>) s;
          s2 = upd_record (server (requests s1 ! req)) (\<lambda>v. v\<lparr> loadValue := loadValue v - 1 \<rparr>) s1
      in server_emit (OutError err (Some (clientId (requests s2 ! req)))) s2)"

definition handleRequestProgress :: "addr \<Rightarrow> payload \<Rightarrow> content_server \<Rightarrow> content_server" where
  "handleRequestProgress req info s =
     (let percent = (case info of
                       Info (Some e) \<Rightarrow> if lengthComputable e then Percent (loaded e) (total e) else Fixed99
                     | _ \<Rightarrow> Fixed99)
      in server_emit (OutMessage (Progress (clientId (requests s ! req)) percent)) s)"

text \<open>
  \<open>this.dataStores[store.name] = store\<close> stores an entry, and the \<open>delete\<close> of
  \<open>handleDataStoreClosing\<close> removes the stored entry only. For a store named
  \<open>__proto__\<close> the assignment would replace the object's prototype instead; no store
  of an inherited name is ever allocated (\<open>createDataStore\<close> below, and the invariant
  \<open>wf\<close>), so no run reaches that case.
\<close>

definition handleDataStoreReady :: "addr \<Rightarrow> content_server \<Rightarrow> content_server" where
  "handleDataStoreReady st s =
     server_emit (OutMessage (CacheReady (name (stores s ! st))))
       (s\<lparr> dataStores := (dataStores s)(name (stores s ! st) \<mapsto> st) \<rparr>)"

definition handleDataStoreError :: "addr \<Rightarrow> payload \<Rightarrow> content_server \<Rightarrow> content_server" where
  "handleDataStoreError st err s = server_emit (OutError err None) s"

definition handleDataStoreClosing :: "addr \<Rightarrow> content_server \<Rightarrow> content_server" where
  "handleDataStoreClosing st s = s\<lparr> dataStores := (dataStores s)(name (stores s ! st) := None) \<rparr>"

text \<open>Calling a registered callback with the emitting object and the event's argument.\<close>

fun invoke :: "handler \<Rightarrow> addr \<Rightarrow> payload \<Rightarrow> content_server \<Rightarrow> content_server" where
  "invoke HandleRequestData x p s = handleRequestData x p s"
| "invoke HandleRequestError x p s = handleRequestError x p s"
| "invoke HandleRequestProgress x p s = handleRequestProgress x p s"
| "invoke HandleDataStoreReady x p s = handleDataStoreReady x s"
| "invoke HandleDataStoreError x p s = handleDataStoreError x p s"
| "invoke HandleDataStoreClosing x p s = handleDataStoreClosing x s"

text \<open>
  \<open>emit\<close> reads the event's array once and calls its callbacks in order. The two
  functions are \<open>emit\<close> on a resource request (logged in \<open>emitted\<close>) and on a data store.
\<close>

definition emit :: "addr \<Rightarrow> string \<Rightarrow> payload \<Rightarrow> content_server \<Rightarrow> content_server" where
  "emit r event p s =
     (let s1 = s\<lparr> emitted := emitted s @ [(r, event)] \<rparr>
      in case listeners (requests s1 ! r) event of
           None \<Rightarrow> s1
         | Some hs \<Rightarrow> fold (\<lambda>h. invoke h r p) hs s1)"

definition store_emit :: "addr \<Rightarrow> string \<Rightarrow> payload \<Rightarrow> content_server \<Rightarrow> content_server" where
  "store_emit a event p s =
     (case store_listeners (stores s ! a) event of
        None \<Rightarrow> s
      | Some hs \<Rightarrow> fold (\<lambda>h. invoke h a p) hs s)"

section \<open>BitstormDataStore\<close>

text \<open>
  \<open>db.transaction(...)\<close> of the IndexedDB API, as the two request methods call it
  without a guard: on \<open>null\<close> the property access raises TypeError; on a connection
  whose \<open>close()\<close> has been called the platform raises InvalidStateError
  (Indexed Database API, \<open>IDBDatabase.transaction\<close>); otherwise a transaction starts.
\<close>

definition transaction :: "bool option \<Rightarrow> exn option" where
  "transaction d =
     (case d of None \<Rightarrow> Some TypeError
      | Some closePending \<Rightarrow> if closePending then Some InvalidStateError else None)"

definition close :: "addr \<Rightarrow> content_server \<Rightarrow> content_server" where
  "close a s =
     (if ready (stores s ! a)
      then let s1 = upd_store a (\<lambda>d. d\<lparr> ready := False \<rparr>) s;
               s2 = store_emit a ''closing'' NoArg s1
           in (case db (stores s2 ! a) of
                 None \<Rightarrow> s2
               | Some c \<Rightarrow> upd_store a (\<lambda>d. d\<lparr> db := Some True \<rparr>) s2)
      else s)"

text \<open>\<open>createRequest\<close>: the URL is the server's URL, a slash added only when the URL
  is not empty and does not end in one, and the resource name.\<close>

definition createRequest :: "addr \<Rightarrow> string \<Rightarrow> string \<Rightarrow> string \<Rightarrow> bare_request" where
  "createRequest st srv nm responseType =
     (let u = srv;
          u = (if length u > 0 \<and> u ! (length u - 1) \<noteq> CHR ''/'' then u @ ''/'' else u);
          u = u @ nm
      in \<lparr> key = nm, url = u, rtype = responseType, store = st, started = False \<rparr>)"

text \<open>The callbacks of \<open>open\<close> and \<open>handleOpenSuccess\<close>. \<open>legacy\<close> is the test
  \<open>db.setVersion && db.version != VERSION\<close>.\<close>

definition handleUpgrade :: "addr \<Rightarrow> content_server \<Rightarrow> content_server" where
  "handleUpgrade a s = upd_store a (\<lambda>d. d\<lparr> db := Some False \<rparr>) s"

definition handleOpenError :: "addr \<Rightarrow> payload \<Rightarrow> content_server \<Rightarrow> content_server" where
  "handleOpenError a err s = store_emit a ''error'' err s"

definition versionChangeComplete :: "addr \<Rightarrow> content_server \<Rightarrow> content_server" where
  "versionChangeComplete a s =
     store_emit a ''ready'' NoArg (upd_store a (\<lambda>d. d\<lparr> ready := True, open_state := Opened \<rparr>) s)"

definition handleOpenSuccess :: "addr \<Rightarrow> bool \<Rightarrow> content_server \<Rightarrow> content_server" where
  "handleOpenSuccess a legacy s =
     (let s1 = upd_store a (\<lambda>d. d\<lparr> db := Some False \<rparr>) s
      in if legacy then upd_store a (\<lambda>d. d\<lparr> open_state := SetVersion \<rparr>) s1
         else store_emit a ''ready'' NoArg (upd_store a (\<lambda>d. d\<lparr> ready := True, open_state := Opened \<rparr>) s1))"

section \<open>BitstormResourceRequest\<close>

text \<open>
  The three steps of a request install callbacks on a platform operation and return.
  What the object stores hold is the platform's affair: the result of the lookup comes
  with its callback, and the two \<open>put\<close> calls of \<open>cacheData\<close> (the metadata record
  and the data) leave no trace in the server's objects.
\<close>

definition downloadData :: "addr \<Rightarrow> content_server \<Rightarrow> content_server" where
  "downloadData r s =
     upd_request r (\<lambda>q. q\<lparr> pending := PendingXhr (url q) (rtype q) \<rparr>) s"

definition queryDataStore :: "addr \<Rightarrow> content_server \<Rightarrow> content_server \<times> exn option" where
  "queryDataStore r s =
     (case transaction (db (stores s ! store (requests s ! r))) of
        Some e \<Rightarrow> (s, Some e)
      | None \<Rightarrow> (upd_request r (\<lambda>q. q\<lparr> pending := PendingGet \<rparr>) s, None))"

definition cacheData :: "addr \<Rightarrow> nat \<Rightarrow> payload \<Rightarrow> content_server \<Rightarrow> content_server \<times> exn option" where
  "cacheData r info_total data s =
     (case transaction (db (stores s ! store (requests s ! r))) of
        Some e \<Rightarrow> (s, Some e)
      | None \<Rightarrow> (upd_request r (\<lambda>q. q\<lparr> pending := PendingTxn data 2 False \<rparr>) s, None))"

text \<open>\<open>checkCache != false\<close> with \<open>checkCache\<close> a boolean or \<open>undefined\<close> (\<open>None\<close>).\<close>

definition start :: "addr \<Rightarrow> bool option \<Rightarrow> content_server \<Rightarrow> content_server \<times> exn option" where
  "start r checkCache s =
     (if started (requests s ! r) then (s, None)
      else if checkCache \<noteq> Some False
      then queryDataStore r (upd_request r (\<lambda>q. q\<lparr> started := True \<rparr>) s)
      else (downloadData r (upd_request r (\<lambda>q. q\<lparr> started := True \<rparr>) s), None))"

section \<open>BitstormContentServer\<close>

record args =
  requestId :: nat
  cacheName :: string
  preferredServer :: "string option"
  resourceName :: string
  responseType :: "string option"
  returnCached :: "bool option"

text \<open>A string argument is truthy when it is given and not empty.\<close>

definition truthy :: "string option \<Rightarrow> bool" where
  "truthy v = (case v of None \<Rightarrow> False | Some t \<Rightarrow> t \<noteq> [])"

text \<open>
  \<open>!dataStore || !dataStore.ready\<close>: an inherited member is truthy and has no \<open>ready\<close>,
  so both tests send it to the error branch, like a store that is not ready.
\<close>

definition requestResource :: "args \<Rightarrow> content_server \<Rightarrow> content_server \<times> exn option" where
  "requestResource a s =
     (let rt = (if truthy (responseType a) then the (responseType a) else ''arraybuffer'');
          dataStore = lookup s (cacheName a);
          not_ready = (server_emit (OutError (Text (''Cache '' @ cacheName a @ '' is not ready.''))
                 (Some (requestId a))) s, None)
      in case dataStore of
           Undefined \<Rightarrow> not_ready
         | Inherited \<Rightarrow> not_ready
         | Own st \<Rightarrow>
           if \<not> ready (stores s ! st) then not_ready
           else
           let serverRecord = (if truthy (preferredServer a)
                               then findContentServer s (the (preferredServer a)) else None);
               serverRecord = (case serverRecord of Some rec \<Rightarrow> Some rec
                               | None \<Rightarrow> chooseContentServer s)
           in case serverRecord of
                None \<Rightarrow> (s, Some TypeError)
              | Some rec \<Rightarrow>
                  let b = createRequest st (serverUrl (records s ! rec)) (resourceName a) rt;
                      request = length (requests s);
                      q = \<lparr> key = key b, url = url b, rtype = rtype b, store = store b,
                            started = started b, server = rec, clientId = requestId a,
                            listeners = on ''progress'' HandleRequestProgress
                              (on ''error'' HandleRequestError
                                (on ''data'' HandleRequestData (\<lambda>e. None))),
                            pending = Idle \<rparr>;
                      s1 = s\<lparr> requests := requests s @ [q] \<rparr>;
                      s2 = upd_record rec (\<lambda>v. v\<lparr> loadValue := loadValue v + 1 \<rparr>) s1
                  in start request (returnCached a) s2)"

text \<open>\<open>if (dataStore) return this\<close>: a stored entry and an inherited member alike
  make \<open>createDataStore\<close> return without creating a store.\<close>

definition createDataStore :: "string \<Rightarrow> content_server \<Rightarrow> content_server" where
  "createDataStore nm s =
     (case lookup s nm of
        Own st \<Rightarrow> s
      | Inherited \<Rightarrow> s
      | Undefined \<Rightarrow>
          s\<lparr> stores := stores s @
               [\<lparr> name = nm, db = None, ready = False,
                  store_listeners = on ''closing'' HandleDataStoreClosing
                    (on ''error'' HandleDataStoreError
                      (on ''ready'' HandleDataStoreReady (\<lambda>e. None))),
                  open_state = Opening \<rparr>] \<rparr>)"

text \<open>
  \<open>if (dataStore) dataStore.close()\<close>: an inherited member has no \<open>close\<close>, and the
  call raises TypeError. \<open>BitstormDataStore.deleteStore(name)\<close>, the platform's
  \<open>deleteDatabase\<close>, does not touch the server's objects.
\<close>

definition deleteDataStore :: "string \<Rightarrow> content_server \<Rightarrow> content_server \<times> exn option" where
  "deleteDataStore nm s =
     (case lookup s nm of
        Undefined \<Rightarrow> (s, None)
      | Inherited \<Rightarrow> (s, Some TypeError)
      | Own st \<Rightarrow> (close st s, None))"

section \<open>Commands and platform callbacks\<close>

text \<open>
  The commands are the methods of \<open>BitstormContentServerLocal\<close>; the other events are
  the platform calling back: the outcome of a store's \<open>open\<close>, of a request's cache
  lookup and transfer, and the events of its write transaction. A callback of an
  operation that is not pending does not occur.

  The write transaction: \<open>PutSuccess\<close> is a \<open>put\<close> request answered with success,
  which calls nothing; \<open>TxnError\<close> is the error event of a \<open>put\<close> request, of the one
  that failed or of one answered by the abort, reaching \<open>txn.onerror\<close>;
  \<open>TxnComplete\<close> is \<open>txn.oncomplete\<close>, after both requests succeeded and the commit;
  \<open>TxnAbort\<close> is the transaction's abort event, after a failed request or a failed
  commit, for which \<open>cacheData\<close> installs no callback.
\<close>

datatype event =
    AddServer string
  | RemoveServer string
  | OpenCache string
  | DeleteCache string
  | GetResource args
  | UpgradeNeeded addr
  | OpenSuccess addr bool
  | OpenError addr payload
  | SetVersionSuccess addr
  | SetVersionError addr payload
  | VersionChangeComplete addr
  | GetSuccess addr "string option"
  | GetError addr
  | XhrProgress addr "progress_event option"
  | XhrLoad addr nat string payload nat
  | XhrError addr string
  | PutSuccess addr
  | TxnError addr
  | TxnComplete addr
  | TxnAbort addr

definition pending_of :: "content_server \<Rightarrow> addr \<Rightarrow> pending_op" where
  "pending_of s r = (if r < length (requests s) then pending (requests s ! r) else Idle)"

definition opening_of :: "content_server \<Rightarrow> addr \<Rightarrow> open_phase" where
  "opening_of s a = (if a < length (stores s) then open_state (stores s ! a) else OpenFailed)"

text \<open>A platform operation is over when it calls its outcome callback.\<close>

definition settle :: "addr \<Rightarrow> content_server \<Rightarrow> content_server" where
  "settle r s = upd_request r (\<lambda>q. q\<lparr> pending := Idle \<rparr>) s"

fun step :: "event \<Rightarrow> content_server \<Rightarrow> content_server \<times> exn option" where
  "step (AddServer u) s = (addContentServer u s, None)"
| "step (RemoveServer u) s = (removeContentServer u s, None)"
| "step (OpenCache nm) s = (createDataStore nm s, None)"
| "step (DeleteCache nm) s = deleteDataStore nm s"
| "step (GetResource a) s = requestResource a s"
| "step (UpgradeNeeded a) s =
     (if opening_of s a = Opening then (handleUpgrade a s, None) else (s, None))"
| "step (OpenSuccess a legacy) s =
     (if opening_of s a = Opening then (handleOpenSuccess a legacy s, None) else (s, None))"
| "step (OpenError a err) s =
     (if opening_of s a = Opening
      then (handleOpenError a err (upd_store a (\<lambda>d. d\<lparr> open_state := OpenFailed \<rparr>) s), None)
      else (s, None))"
| "step (SetVersionSuccess a) s =
     (if opening_of s a = SetVersion
      then (upd_store a (\<lambda>d. d\<lparr> open_state := VersionChange \<rparr>) s, None) else (s, None))"
| "step (SetVersionError a err) s =
     (if opening_of s a = SetVersion
      then (store_emit a ''error'' err (upd_store a (\<lambda>d. d\<lparr> open_state := OpenFailed \<rparr>) s), None)
      else (s, None))"
| "step (VersionChangeComplete a) s =
     (if opening_of s a = VersionChange then (versionChangeComplete a s, None) else (s, None))"
| "step (GetSuccess r result) s =
     (if pending_of s r = PendingGet
      then (case result of
              Some d \<Rightarrow> (emit r ''data'' (Text d) (settle r s), None)
            | None \<Rightarrow> (downloadData r s, None))
      else (s, None))"
| "step (GetError r) s =
     (if pending_of s r = PendingGet then (downloadData r s, None) else (s, None))"
| "step (XhrProgress r info) s =
     (case pending_of s r of
        PendingXhr u t \<Rightarrow> (emit r ''progress'' (Info info) s, None)
      | _ \<Rightarrow> (s, None))"
| "step (XhrLoad r stat statusText response info_total) s =
     (case pending_of s r of
        PendingXhr u t \<Rightarrow>
          if stat \<ge> 200 \<and> stat < 300 then cacheData r info_total response (settle r s)
          else (emit r ''error'' (Text statusText) (settle r s), None)
      | _ \<Rightarrow> (s, None))"
| "step (XhrError r statusText) s =
     (case pending_of s r of
        PendingXhr u t \<Rightarrow> (emit r ''error'' (Text statusText) (settle r s), None)
      | _ \<Rightarrow> (s, None))"
| "step (PutSuccess r) s =
     (case pending_of s r of
        PendingTxn data (Suc k) False \<Rightarrow>
          (upd_request r (\<lambda>q. q\<lparr> pending := PendingTxn data k False \<rparr>) s, None)
      | _ \<Rightarrow> (s, None))"
| "step (TxnError r) s =
     (case pending_of s r of
        PendingTxn data (Suc k) failed \<Rightarrow>
          (emit r ''data'' data
             (upd_request r (\<lambda>q. q\<lparr> pending := PendingTxn data k True \<rparr>) s), None)
      | _ \<Rightarrow> (s, None))"
| "step (TxnComplete r) s =
     (case pending_of s r of
        PendingTxn data 0 False \<Rightarrow> (emit r ''data'' data (settle r s), None)
      | _ \<Rightarrow> (s, None))"
| "step (TxnAbort r) s =
     (case pending_of s r of
        PendingTxn data 0 failed \<Rightarrow> (settle r s, None)
      | _ \<Rightarrow> (s, None))"

text \<open>An uncaught exception ends the callback it was raised in; the server's state,
  as far as the callback had changed it, stays, and later events are served from it.\<close>

fun run :: "event list \<Rightarrow> content_server \<Rightarrow> content_server" where
  "run [] s = s"
| "run (e # es) s = run es (fst (step e s))"

section \<open>Observations and invariants\<close>

text \<open>The subscriptions \<open>requestResource\<close> and \<open>createDataStore\<close> install.\<close>

definition request_subscriptions :: listener_table where
  "request_subscriptions = on ''progress'' HandleRequestProgress
     (on ''error'' HandleRequestError (on ''data'' HandleRequestData (\<lambda>e. None)))"

definition store_subscriptions :: listener_table where
  "store_subscriptions = on ''closing'' HandleDataStoreClosing
     (on ''error'' HandleDataStoreError (on ''ready'' HandleDataStoreReady (\<lambda>e. None)))"

text \<open>
  Well-formed states: every request carries the server's three subscriptions and is
  bound to an allocated origin record, every store carries the server's three
  subscriptions and a name that is not inherited, and the registry and the store map hold
  allocated addresses.
\<close>

definition wf :: "content_server \<Rightarrow> bool" where
  "wf s \<longleftrightarrow>
     (\<forall>r < length (requests s). listeners (requests s ! r) = request_subscriptions
        \<and> server (requests s ! r) < length (records s))
   \<and> (\<forall>a < length (stores s). store_listeners (stores s ! a) = store_subscriptions
        \<and> \<not> inherited (name (stores s ! a)))
   \<and> (\<forall>a \<in> set (contentServers s). a < length (records s))
   \<and> (\<forall>nm a. dataStores s nm = Some a \<longrightarrow> a < length (stores s))"

text \<open>What a terminal \<open>emit\<close> of a request does to a well-formed state: the handler
  decrements the load of the request's origin record and the server emits \<open>x\<close>.\<close>

definition terminal_effect :: "addr \<Rightarrow> string \<Rightarrow> notification \<Rightarrow> content_server \<Rightarrow> content_server" where
  "terminal_effect r ev x s =
     s\<lparr> records := (records s)[server (requests s ! r) :=
            (records s ! server (requests s ! r))
              \<lparr> loadValue := loadValue (records s ! server (requests s ! r)) - 1 \<rparr>],
        out := out s @ [x],
        emitted := emitted s @ [(r, ev)] \<rparr>"

text \<open>The steps of \<open>requestResource\<close>, named: the readiness test, the origin a request
  is bound to, the request object, and the state when \<open>start\<close> is called.\<close>

definition usable :: "args \<Rightarrow> content_server \<Rightarrow> bool" where
  "usable a s = (case lookup s (cacheName a) of Own st \<Rightarrow> ready (stores s ! st) | _ \<Rightarrow> False)"

definition resolve :: "args \<Rightarrow> content_server \<Rightarrow> addr option" where
  "resolve a s =
     (case (if truthy (preferredServer a) then findContentServer s (the (preferredServer a)) else None) of
        Some rec \<Rightarrow> Some rec
      | None \<Rightarrow> chooseContentServer s)"

definition new_request :: "args \<Rightarrow> addr \<Rightarrow> content_server \<Rightarrow> resource_request" where
  "new_request a rec s =
     (let b = createRequest (case lookup s (cacheName a) of Own st \<Rightarrow> st | _ \<Rightarrow> 0) (serverUrl (records s ! rec))
                (resourceName a)
                (if truthy (responseType a) then the (responseType a) else ''arraybuffer'')
      in \<lparr> key = key b, url = url b, rtype = rtype b, store = store b, started = started b,
            server = rec, clientId = requestId a, listeners = request_subscriptions,
            pending = Idle \<rparr>)"

definition dispatched :: "args \<Rightarrow> addr \<Rightarrow> content_server \<Rightarrow> content_server" where
  "dispatched a rec s =
     s\<lparr> requests := requests s @ [new_request a rec s],
        records := (records s)[rec := (records s ! rec)\<lparr> loadValue := loadValue (records s ! rec) + 1 \<rparr>] \<rparr>"

text \<open>
  The footprint of one event on the requests and on the URLs of the origin records:
  nothing; a new origin record; a new request bound to an origin; the pending operation
  of a request replaced.
\<close>

inductive shape :: "content_server \<Rightarrow> content_server \<Rightarrow> bool" where
  frame: "requests s' = requests s \<Longrightarrow> map serverUrl (records s') = map serverUrl (records s)
    \<Longrightarrow> shape s s'"
| added: "requests s' = requests s
    \<Longrightarrow> map serverUrl (records s') = map serverUrl (records s) @ [u] \<Longrightarrow> shape s s'"
| dispatch: "rec < length (records s) \<Longrightarrow> requests s' = requests s @ [q] \<Longrightarrow> server q = rec
    \<Longrightarrow> url q = url (createRequest st (serverUrl (records s ! rec)) (key q) t)
    \<Longrightarrow> pending q = Idle \<or> pending q = PendingGet \<or> pending q = PendingXhr (url q) (rtype q)
    \<Longrightarrow> map serverUrl (records s') = map serverUrl (records s) \<Longrightarrow> shape s s'"
| moved: "r < length (requests s)
    \<Longrightarrow> requests s' = (requests s)[r := (requests s ! r)\<lparr> pending := p \<rparr>]
    \<Longrightarrow> p = Idle \<or> p = PendingXhr (url (requests s ! r)) (rtype (requests s ! r))
          \<or> (\<exists>d k f. p = PendingTxn d k f)
    \<Longrightarrow> map serverUrl (records s') = map serverUrl (records s) \<Longrightarrow> shape s s'"

text \<open>
  Terminal events are \<open>'data'\<close> and \<open>'error'\<close>. \<open>terminal_events r s\<close> are those request
  \<open>r\<close> has emitted, and \<open>bound_to a s\<close> counts the requests dispatched to origin record
  \<open>a\<close>.
\<close>

definition terminal :: "string \<Rightarrow> bool" where
  "terminal ev \<longleftrightarrow> ev = ''data'' \<or> ev = ''error''"

definition terminal_events :: "addr \<Rightarrow> content_server \<Rightarrow> (addr \<times> string) list" where
  "terminal_events r s = filter (\<lambda>x. fst x = r \<and> terminal (snd x)) (emitted s)"

definition bound_to :: "addr \<Rightarrow> content_server \<Rightarrow> nat" where
  "bound_to a s = length (filter (\<lambda>q. server q = a) (requests s))"

text \<open>The URL \<open>createRequest\<close> builds, and the invariant that a transfer in flight was
  opened on the URL and with the type of its request.\<close>

definition join_url :: "string \<Rightarrow> string \<Rightarrow> string" where
  "join_url srv nm = (if srv \<noteq> [] \<and> last srv \<noteq> CHR ''/'' then srv @ ''/'' @ nm else srv @ nm)"

definition well_addressed :: "server_record list \<Rightarrow> resource_request \<Rightarrow> bool" where
  "well_addressed rs q \<longleftrightarrow>
     url q = join_url (serverUrl (rs ! server q)) (key q)
   \<and> (case pending q of PendingXhr u t \<Rightarrow> u = url q \<and> t = rtype q | _ \<Rightarrow> True)"

definition addressed :: "content_server \<Rightarrow> bool" where
  "addressed s \<longleftrightarrow> (\<forall>r < length (requests s). well_addressed (records s) (requests s ! r))"

definition placed :: "content_server \<Rightarrow> bool" where
  "placed s \<longleftrightarrow> wf s \<and> addressed s"

text \<open>A request for \<open>x.bin\<close> from the cache \<open>assets\<close>, used in the scenarios below.\<close>

abbreviation fetch :: "nat \<Rightarrow> string option \<Rightarrow> bool option \<Rightarrow> event" where
  "fetch i srv cached \<equiv> GetResource \<lparr> requestId = i, cacheName = ''assets'',
     preferredServer = srv, resourceName = ''x.bin'', responseType = None, returnCached = cached \<rparr>"

section \<open>Preservation of the invariants\<close>

lemma request_subscriptions_at [simp]:
  "request_subscriptions ''data'' = Some [HandleRequestData]"
  "request_subscriptions ''error'' = Some [HandleRequestError]"
  "request_subscriptions ''progress'' = Some [HandleRequestProgress]"
  "request_subscriptions ''undefined'' = None"
  by (simp_all add: request_subscriptions_def on_def)

lemma store_subscriptions_at [simp]:
  "store_subscriptions ''ready'' = Some [HandleDataStoreReady]"
  "store_subscriptions ''error'' = Some [HandleDataStoreError]"
  "store_subscriptions ''closing'' = Some [HandleDataStoreClosing]"
  by (simp_all add: store_subscriptions_def on_def)

lemma removeAllListeners_request_subscriptions [simp]:
  "removeAllListeners None request_subscriptions = request_subscriptions"
  by (rule ext) (simp add: removeAllListeners_def)

lemma wf_requestD:
  "wf s \<Longrightarrow> r < length (requests s) \<Longrightarrow> listeners (requests s ! r) = request_subscriptions"
  "wf s \<Longrightarrow> r < length (requests s) \<Longrightarrow> server (requests s ! r) < length (records s)"
  by (simp_all add: wf_def)

lemma wf_storeD:
  "wf s \<Longrightarrow> a < length (stores s) \<Longrightarrow> store_listeners (stores s ! a) = store_subscriptions"
  by (simp add: wf_def)

lemma keep_listeners:
  assumes "r < length (requests s)" "listeners (requests s ! r) = request_subscriptions"
  shows "(requests s)[r := (requests s ! r)\<lparr> listeners := request_subscriptions \<rparr>] = requests s"
proof -
  have "(requests s ! r)\<lparr> listeners := request_subscriptions \<rparr> = requests s ! r"
    using assms(2) [symmetric] by simp
  then show ?thesis by simp
qed

lemma emit_data_wf:
  assumes "r < length (requests s)" "listeners (requests s ! r) = request_subscriptions"
  shows "emit r ''data'' p s = terminal_effect r ''data''
     (OutMessage (ResourceData (clientId (requests s ! r)) (url (requests s ! r))
        (key (requests s ! r)) p (rtype (requests s ! r)))) s"
  using assms
  by (simp add: emit_def handleRequestData_def upd_request_def upd_record_def server_emit_def
      terminal_effect_def Let_def keep_listeners)

lemma emit_error_wf:
  assumes "r < length (requests s)" "listeners (requests s ! r) = request_subscriptions"
  shows "emit r ''error'' p s = terminal_effect r ''error''
     (OutError p (Some (clientId (requests s ! r)))) s"
  using assms
  by (simp add: emit_def handleRequestError_def upd_request_def upd_record_def server_emit_def
      terminal_effect_def Let_def keep_listeners)

lemma emit_progress_wf:
  assumes "r < length (requests s)" "listeners (requests s ! r) = request_subscriptions"
  shows "emit r ''progress'' p s =
     s\<lparr> out := out s @ [OutMessage (Progress (clientId (requests s ! r))
            (case p of Info (Some e) \<Rightarrow> if lengthComputable e then Percent (loaded e) (total e) else Fixed99
             | _ \<Rightarrow> Fixed99))],
        emitted := emitted s @ [(r, ''progress'')] \<rparr>"
  using assms
  by (simp add: emit_def handleRequestProgress_def server_emit_def Let_def)

lemma nth_upd: "j < length xs \<Longrightarrow> xs[i := v] ! j = (if i = j then v else xs ! j)"
  by (cases "i = j") simp_all

lemma wf_out [simp]: "wf (s\<lparr> out := x \<rparr>) = wf s"
  by (simp add: wf_def)

lemma wf_empty: "wf empty_server"
  by (simp add: wf_def empty_server_def)

lemma wf_terminal_effect: "wf s \<Longrightarrow> wf (terminal_effect r ev x s)"
  by (simp add: wf_def terminal_effect_def)

lemma wf_settle: "wf s \<Longrightarrow> wf (settle r s)"
  by (auto simp add: wf_def settle_def upd_request_def nth_upd)

lemma wf_upd_pending: "wf s \<Longrightarrow> wf (upd_request r (\<lambda>q. q\<lparr> pending := p \<rparr>) s)"
  by (auto simp add: wf_def upd_request_def nth_upd)

lemma wf_downloadData: "wf s \<Longrightarrow> wf (downloadData r s)"
  by (auto simp add: wf_def downloadData_def upd_request_def nth_upd)

lemma wf_cacheData: "wf s \<Longrightarrow> wf (fst (cacheData r n d s))"
  by (auto simp add: wf_def cacheData_def upd_request_def nth_upd split: option.splits)

lemma wf_queryDataStore: "wf s \<Longrightarrow> wf (fst (queryDataStore r s))"
  by (auto simp add: wf_def queryDataStore_def upd_request_def nth_upd split: option.splits)

lemma wf_start: "wf s \<Longrightarrow> wf (fst (start r c s))"
proof -
  assume w: "wf s"
  have "wf (upd_request r (\<lambda>q. q\<lparr> started := True \<rparr>) s)"
    using w by (auto simp add: wf_def upd_request_def nth_upd)
  then show ?thesis
    by (simp add: start_def wf_queryDataStore wf_downloadData w)
qed

lemma settle_proj [simp]:
  "length (requests (settle r s)) = length (requests s)"
  "r < length (requests s) \<Longrightarrow> listeners (requests (settle r s) ! r) = listeners (requests s ! r)"
  by (simp_all add: settle_def upd_request_def)

lemma wf_emit:
  assumes "wf s" "r < length (requests s)"
  shows "wf (emit r ''data'' p s)" "wf (emit r ''error'' p s)" "wf (emit r ''progress'' p s)"
  using assms
  by (simp_all add: emit_data_wf emit_error_wf emit_progress_wf wf_requestD wf_terminal_effect)
     (simp add: wf_def)

lemma chooseLoop_range:
  "chooseLoop lvs i m = Inl j \<Longrightarrow> i \<le> j \<and> j < i + length lvs"
proof (induction lvs arbitrary: i m)
  case Nil
  then show ?case by simp
next
  case (Cons lv lvs)
  show ?case
  proof (cases "lv = 0")
    case True
    with Cons.prems show ?thesis by simp
  next
    case False
    with Cons.prems have "chooseLoop lvs (i + 1) (if lv < int m then i else m) = Inl j"
      by simp
    from Cons.IH [OF this] show ?thesis by simp
  qed
qed

lemma chooseContentServer_in:
  "chooseContentServer s = Some a \<Longrightarrow> a \<in> set (contentServers s)"
  by (auto simp add: chooseContentServer_def Let_def split: sum.splits if_splits
      dest!: chooseLoop_range)

lemma findContentServer_in:
  "findContentServer s u = Some a \<Longrightarrow> a \<in> set (contentServers s)"
  by (auto simp add: findContentServer_def find_Some_iff)

lemma resolve_in: "resolve a s = Some rec \<Longrightarrow> rec \<in> set (contentServers s)"
  by (auto simp add: resolve_def split: option.splits if_splits
      dest: chooseContentServer_in findContentServer_in)

lemma requestResource_cases:
  "requestResource a s =
     (if \<not> usable a s
      then (s\<lparr> out := out s @ [OutError (Text (''Cache '' @ cacheName a @ '' is not ready.''))
                 (Some (requestId a))] \<rparr>, None)
      else case resolve a s of
             None \<Rightarrow> (s, Some TypeError)
           | Some rec \<Rightarrow> start (length (requests s)) (returnCached a) (dispatched a rec s))"
  by (auto simp add: requestResource_def usable_def resolve_def Let_def server_emit_def
      new_request_def dispatched_def upd_record_def request_subscriptions_def
      lookup_def split: option.splits property.splits)

lemma wf_dispatched:
  assumes "wf s" "rec \<in> set (contentServers s)"
  shows "wf (dispatched a rec s)"
  using assms
  by (auto simp add: wf_def dispatched_def new_request_def nth_append Let_def)

lemma wf_requestResource: "wf s \<Longrightarrow> wf (fst (requestResource a s))"
  by (auto simp add: requestResource_cases wf_start wf_dispatched resolve_in split: option.splits)

lemma wf_addContentServer: "wf s \<Longrightarrow> wf (addContentServer u s)"
  by (auto simp add: wf_def addContentServer_def less_Suc_eq)

lemma set_removeLoop: "set (removeLoop P xs) \<subseteq> set xs"
  by (induction xs) auto

lemma wf_removeContentServer: "wf s \<Longrightarrow> wf (removeContentServer u s)"
  using set_removeLoop by (fastforce simp add: wf_def removeContentServer_def)

lemma wf_createDataStore: "wf s \<Longrightarrow> wf (createDataStore nm s)"
  by (auto simp add: wf_def createDataStore_def lookup_def nth_append store_subscriptions_def
      split: option.splits if_splits intro: less_SucI)

lemma wf_upd_store:
  assumes "wf s" "\<And>d. store_listeners (f d) = store_listeners d" "\<And>d. name (f d) = name d"
  shows "wf (upd_store a f s)"
  using assms by (auto simp add: wf_def upd_store_def nth_upd)

lemma wf_store_handlers:
  "wf s \<Longrightarrow> a < length (stores s) \<Longrightarrow> wf (handleDataStoreReady a s)"
  "wf s \<Longrightarrow> wf (handleDataStoreError a p s)"
  "wf s \<Longrightarrow> wf (handleDataStoreClosing a s)"
  by (simp_all add: wf_def handleDataStoreReady_def handleDataStoreError_def
      handleDataStoreClosing_def server_emit_def)

lemma wf_store_emit:
  assumes "wf s" "a < length (stores s)"
  shows "wf (store_emit a ev p s)"
proof (cases "store_subscriptions ev")
  case None
  with assms show ?thesis by (simp add: store_emit_def wf_storeD)
next
  case (Some hs)
  then have "hs = [HandleDataStoreReady] \<or> hs = [HandleDataStoreError] \<or> hs = [HandleDataStoreClosing]"
    by (auto simp add: store_subscriptions_def on_def split: if_splits)
  with assms Some show ?thesis
    by (auto simp add: store_emit_def wf_storeD wf_store_handlers)
qed

lemma upd_store_length [simp]: "length (stores (upd_store a f s)) = length (stores s)"
  by (simp add: upd_store_def)

lemma store_emit_length [simp]: "length (stores (store_emit a ev p s)) = length (stores s)"
proof -
  have "length (stores (invoke h a p s)) = length (stores s)" for h s
    by (cases h) (simp_all add: handleRequestData_def handleRequestError_def
        handleRequestProgress_def handleDataStoreReady_def handleDataStoreError_def
        handleDataStoreClosing_def server_emit_def upd_record_def upd_request_def Let_def)
  then have "length (stores (fold (\<lambda>h. invoke h a p) hs s)) = length (stores s)" for hs
    by (induction hs arbitrary: s) simp_all
  then show ?thesis by (simp add: store_emit_def split: option.splits)
qed

lemma wf_close: "wf s \<Longrightarrow> a < length (stores s) \<Longrightarrow> wf (close a s)"
  by (auto simp add: close_def Let_def wf_upd_store wf_store_emit split: option.splits)

lemma wf_deleteDataStore: "wf s \<Longrightarrow> wf (fst (deleteDataStore nm s))"
proof (cases "dataStores s nm")
  case None
  assume "wf s"
  with None show ?thesis by (simp add: deleteDataStore_def lookup_def)
next
  case (Some a)
  assume w: "wf s"
  with Some have "a < length (stores s)"
    by (simp add: wf_def)
  with w Some show ?thesis by (simp add: deleteDataStore_def lookup_def wf_close)
qed

lemma wf_step: "wf s \<Longrightarrow> wf (fst (step e s))"
proof (cases e)
  case (GetResource a)
  assume "wf s"
  with GetResource show ?thesis by (simp add: wf_requestResource)
next
  case (DeleteCache nm)
  assume "wf s"
  with DeleteCache show ?thesis by (simp add: wf_deleteDataStore)
next
  case (TxnError r)
  assume w: "wf s"
  show ?thesis
  proof (cases "pending_of s r = Idle")
    case True
    with TxnError w show ?thesis by simp
  next
    case False
    then have "r < length (requests s)" by (simp add: pending_of_def split: if_splits)
    then have "r < length (requests (upd_request r (\<lambda>q. q\<lparr> pending := x \<rparr>) s))" for x
      by (simp add: upd_request_def)
    then have "wf (emit r ''data'' p (upd_request r (\<lambda>q. q\<lparr> pending := x \<rparr>) s))" for p x
      using wf_emit(1) [OF wf_upd_pending [OF w]] by simp
    with TxnError w show ?thesis
      by (simp split: pending_op.splits nat.splits)
  qed
qed (auto simp add: wf_addContentServer wf_removeContentServer wf_createDataStore
      opening_of_def pending_of_def handleUpgrade_def handleOpenSuccess_def handleOpenError_def
      versionChangeComplete_def wf_upd_store wf_store_emit wf_emit wf_settle wf_downloadData
      wf_cacheData wf_upd_pending Let_def
      split: option.splits pending_op.splits if_splits nat.splits bool.splits)

lemma store_emit_frame:
  "requests (store_emit a ev p s) = requests s \<and> records (store_emit a ev p s) = records s"
  if "store_listeners (stores s ! a) = store_subscriptions"
proof -
  consider "store_subscriptions ev = None" | "store_subscriptions ev = Some [HandleDataStoreReady]"
    | "store_subscriptions ev = Some [HandleDataStoreError]"
    | "store_subscriptions ev = Some [HandleDataStoreClosing]"
    by (cases "ev = ''closing''"; cases "ev = ''error''"; cases "ev = ''ready''")
      (simp_all add: store_subscriptions_def on_def)
  then show ?thesis
    using that
    by cases (simp_all add: store_emit_def handleDataStoreReady_def handleDataStoreError_def
        handleDataStoreClosing_def server_emit_def)
qed

lemma upd_store_frame [simp]:
  "requests (upd_store a f s) = requests s" "records (upd_store a f s) = records s"
  by (simp_all add: upd_store_def)

lemma upd_store_listeners:
  assumes "wf s" "a < length (stores s)" "\<And>d. store_listeners (f d) = store_listeners d"
  shows "store_listeners (stores (upd_store a f s) ! a) = store_subscriptions"
  using assms by (simp add: upd_store_def wf_def)

lemma upd_store_twice:
  "a < length (stores s) \<Longrightarrow> upd_store a g (upd_store a f s) = upd_store a (\<lambda>d. g (f d)) s"
  by (simp add: upd_store_def)

lemma serverUrl_update [simp]:
  "map serverUrl (rs[i := (rs ! i)\<lparr> loadValue := v \<rparr>]) = map serverUrl rs"
  by (cases "i < length rs") (simp_all add: map_update list_update_same_conv list_update_beyond)

lemma serverUrl_nth:
  assumes "map serverUrl rs' = map serverUrl rs @ us" "i < length rs"
  shows "serverUrl (rs' ! i) = serverUrl (rs ! i)"
proof -
  have "length rs' = length rs + length us"
    using arg_cong [OF assms(1), of length] by simp
  with assms(2) have "serverUrl (rs' ! i) = map serverUrl rs' ! i"
    by simp
  also have "\<dots> = serverUrl (rs ! i)"
    using assms(2) by (simp add: assms(1) nth_append)
  finally show ?thesis .
qed

lemma shape_store_event:
  assumes "wf s" "a < length (stores s)" "\<And>d. store_listeners (f d) = store_listeners d"
  shows "shape s (store_emit a ev p (upd_store a f s))"
  using store_emit_frame [OF upd_store_listeners [OF assms], of ev p]
  by (intro shape.frame) simp_all

lemma shape_close:
  assumes "wf s" "a < length (stores s)"
  shows "shape s (close a s)"
proof (cases "ready (stores s ! a)")
  case False
  then show ?thesis by (simp add: close_def shape.frame)
next
  case True
  have "store_listeners (stores (upd_store a (\<lambda>d. d\<lparr> ready := False \<rparr>) s) ! a) = store_subscriptions"
    using assms by (simp add: upd_store_listeners)
  from store_emit_frame [OF this, of "''closing''" NoArg] True show ?thesis
    by (intro shape.frame) (simp_all add: close_def Let_def split: option.splits)
qed

lemma start_fresh:
  assumes "n = length (requests s)" "started q = False" "pending q = Idle"
  shows "\<exists>p. requests (fst (start n c (s\<lparr> requests := requests s @ [q], records := rs \<rparr>)))
            = requests s @ [q\<lparr> started := True, pending := p \<rparr>]
          \<and> (p = Idle \<or> p = PendingGet \<or> p = PendingXhr (url q) (rtype q))
          \<and> records (fst (start n c (s\<lparr> requests := requests s @ [q], records := rs \<rparr>))) = rs"
proof -
  have idle: "q\<lparr> started := True \<rparr> = q\<lparr> started := True, pending := Idle \<rparr>"
    using assms(3) [symmetric] by simp
  show ?thesis
  proof (cases "c \<noteq> Some False")
    case False
    with assms show ?thesis
      by (intro exI [of _ "PendingXhr (url q) (rtype q)"])
        (simp add: start_def downloadData_def upd_request_def)
  next
    case True
    show ?thesis
    proof (cases "transaction (db (stores s ! store q))")
      case None
      with True assms show ?thesis
        by (intro exI [of _ PendingGet]) (simp add: start_def queryDataStore_def upd_request_def)
    next
      case (Some e)
      with True assms idle show ?thesis
        by (intro exI [of _ Idle]) (simp add: start_def queryDataStore_def upd_request_def)
    qed
  qed
qed

lemma shape_requestResource:
  assumes "wf s"
  shows "shape s (fst (requestResource a s))"
proof (cases "usable a s")
  case False
  then show ?thesis by (simp add: requestResource_cases shape.frame)
next
  case True
  show ?thesis
  proof (cases "resolve a s")
    case None
    with True show ?thesis by (simp add: requestResource_cases shape.frame)
  next
    case (Some rec)
    let ?q = "new_request a rec s"
    let ?rs = "(records s)[rec := (records s ! rec)\<lparr> loadValue := loadValue (records s ! rec) + 1 \<rparr>]"
    let ?s' = "fst (start (length (requests s)) (returnCached a) (dispatched a rec s))"
    have rec: "rec < length (records s)"
      using resolve_in [OF Some] assms by (simp add: wf_def)
    have q: "started ?q = False" "pending ?q = Idle"
      by (simp_all add: new_request_def createRequest_def Let_def)
    have d: "dispatched a rec s = s\<lparr> requests := requests s @ [?q], records := ?rs \<rparr>"
      by (simp add: dispatched_def)
    from start_fresh [OF refl q, of s "returnCached a" ?rs]
    obtain p where p: "requests ?s' = requests s @ [?q\<lparr> started := True, pending := p \<rparr>]"
      "p = Idle \<or> p = PendingGet \<or> p = PendingXhr (url ?q) (rtype ?q)"
      "records ?s' = ?rs"
      unfolding d by blast
    have u: "map serverUrl (records ?s') = map serverUrl (records s)"
      by (simp add: p(3))
    have "shape s ?s'"
    proof (rule shape.dispatch [OF rec p(1) _ _ _ u])
      show "server (?q\<lparr> started := True, pending := p \<rparr>) = rec"
        by (simp add: new_request_def Let_def)
      show "url (?q\<lparr> started := True, pending := p \<rparr>)
          = url (createRequest (case lookup s (cacheName a) of Own st \<Rightarrow> st | _ \<Rightarrow> 0)
              (serverUrl (records s ! rec))
              (key (?q\<lparr> started := True, pending := p \<rparr>))
              (if truthy (responseType a) then the (responseType a) else ''arraybuffer''))"
        by (simp add: new_request_def createRequest_def Let_def)
      show "pending (?q\<lparr> started := True, pending := p \<rparr>) = Idle
          \<or> pending (?q\<lparr> started := True, pending := p \<rparr>) = PendingGet
          \<or> pending (?q\<lparr> started := True, pending := p \<rparr>)
              = PendingXhr (url (?q\<lparr> started := True, pending := p \<rparr>))
                  (rtype (?q\<lparr> started := True, pending := p \<rparr>))"
        using p(2) by simp
    qed
    with True Some show ?thesis by (simp add: requestResource_cases)
  qed
qed

lemma shape_terminal:
  assumes "wf s" "r < length (requests s)" "x = Idle \<or> (\<exists>d k f. x = PendingTxn d k f)"
  shows "shape s (emit r ''data'' p (upd_request r (\<lambda>q. q\<lparr> pending := x \<rparr>) s))"
    "shape s (emit r ''error'' p (upd_request r (\<lambda>q. q\<lparr> pending := x \<rparr>) s))"
proof -
  let ?s1 = "upd_request r (\<lambda>q. q\<lparr> pending := x \<rparr>) s"
  have w: "wf ?s1" using assms(1) by (rule wf_upd_pending)
  have r: "r < length (requests ?s1)" using assms(2) by (simp add: upd_request_def)
  have l: "listeners (requests ?s1 ! r) = request_subscriptions"
    using w r by (rule wf_requestD)
  have "shape s (terminal_effect r ev y ?s1)" for ev y
    using assms(2,3)
    by (intro shape.moved [of r s _ x])
      (auto simp add: terminal_effect_def upd_request_def)
  then show "shape s (emit r ''data'' p ?s1)" "shape s (emit r ''error'' p ?s1)"
    by (simp_all add: emit_data_wf [OF r l] emit_error_wf [OF r l])
qed

lemma shape_progress:
  assumes "wf s" "r < length (requests s)"
  shows "shape s (emit r ''progress'' p s)"
  using assms
  by (intro shape.frame) (simp_all add: emit_progress_wf wf_requestD)

lemma shape_pending:
  assumes "r < length (requests s)"
    "x = Idle \<or> x = PendingXhr (url (requests s ! r)) (rtype (requests s ! r))
       \<or> (\<exists>d k f. x = PendingTxn d k f)"
  shows "shape s (upd_request r (\<lambda>q. q\<lparr> pending := x \<rparr>) s)"
  using assms
  by (intro shape.moved [of r s _ x]) (auto simp add: upd_request_def)

lemma shape_downloadData:
  assumes "r < length (requests s)"
  shows "shape s (downloadData r s)"
  using assms
  by (intro shape.moved [of r s _ "PendingXhr (url (requests s ! r)) (rtype (requests s ! r))"])
    (simp_all add: downloadData_def upd_request_def)

lemma shape_cacheData:
  assumes "r < length (requests s)"
  shows "shape s (fst (cacheData r n d (settle r s)))"
proof (cases "transaction (db (stores s ! store (requests s ! r)))")
  case None
  with assms show ?thesis
    by (intro shape.moved [of r s _ "PendingTxn d 2 False"])
      (auto simp add: cacheData_def settle_def upd_request_def)
next
  case (Some e)
  with assms show ?thesis
    by (intro shape.moved [of r s _ Idle])
      (simp_all add: cacheData_def settle_def upd_request_def)
qed

lemma pending_ofD:
  "pending_of s r \<noteq> Idle \<Longrightarrow> r < length (requests s) \<and> pending (requests s ! r) = pending_of s r"
  by (simp add: pending_of_def split: if_splits)

lemma opening_ofD:
  "opening_of s a = Opening \<Longrightarrow> a < length (stores s)"
  "opening_of s a = SetVersion \<Longrightarrow> a < length (stores s)"
  "opening_of s a = VersionChange \<Longrightarrow> a < length (stores s)"
  by (simp_all add: opening_of_def split: if_splits)

lemma shape_step:
  assumes "wf s"
  shows "shape s (fst (step e s))"
proof (cases e)
  case (AddServer u)
  show ?thesis
  proof (cases "findContentServer s u = None")
    case True
    with AddServer show ?thesis
      by (intro shape.added [of _ _ u]) (simp_all add: addContentServer_def)
  next
    case False
    with AddServer show ?thesis by (simp add: addContentServer_def shape.frame)
  qed
next
  case (RemoveServer u)
  then show ?thesis by (simp add: removeContentServer_def shape.frame)
next
  case (OpenCache nm)
  then show ?thesis by (simp add: createDataStore_def shape.frame split: property.splits)
next
  case (DeleteCache nm)
  show ?thesis
  proof (cases "dataStores s nm")
    case None
    with DeleteCache show ?thesis by (simp add: deleteDataStore_def lookup_def shape.frame)
  next
    case (Some a)
    with assms have "a < length (stores s)" by (simp add: wf_def)
    with DeleteCache Some assms show ?thesis
      by (simp add: deleteDataStore_def lookup_def shape_close)
  qed
next
  case (GetResource a)
  with assms show ?thesis by (simp add: shape_requestResource)
next
  case (UpgradeNeeded a)
  then show ?thesis by (simp add: handleUpgrade_def shape.frame)
next
  case (OpenSuccess a legacy)
  show ?thesis
  proof (cases "opening_of s a = Opening")
    case False
    with OpenSuccess show ?thesis by (simp add: shape.frame)
  next
    case True
    then have a: "a < length (stores s)" by (simp add: opening_ofD)
    have "shape s (store_emit a ''ready'' NoArg
        (upd_store a (\<lambda>d. d\<lparr> db := Some False, ready := True, open_state := Opened \<rparr>) s))"
      using a by (intro shape_store_event [OF assms]) simp_all
    with OpenSuccess True a show ?thesis
      by (simp add: handleOpenSuccess_def Let_def shape.frame upd_store_twice)
  qed
next
  case (OpenError a err)
  with assms show ?thesis
    by (cases "opening_of s a = Opening")
      (simp_all add: handleOpenError_def shape.frame opening_ofD shape_store_event)
next
  case (SetVersionSuccess a)
  then show ?thesis by (simp add: shape.frame)
next
  case (SetVersionError a err)
  with assms show ?thesis
    by (cases "opening_of s a = SetVersion")
      (simp_all add: shape.frame opening_ofD shape_store_event)
next
  case (VersionChangeComplete a)
  with assms show ?thesis
    by (cases "opening_of s a = VersionChange")
      (simp_all add: versionChangeComplete_def shape.frame opening_ofD shape_store_event)
next
  case (GetSuccess r result)
  show ?thesis
  proof (cases "pending_of s r = PendingGet")
    case False
    with GetSuccess show ?thesis by (simp add: shape.frame)
  next
    case True
    then have "r < length (requests s)"
      using pending_ofD [of s r] by simp
    with GetSuccess True assms show ?thesis
      by (cases result) (simp_all add: shape_downloadData shape_terminal settle_def)
  qed
next
  case (GetError r)
  show ?thesis
  proof (cases "pending_of s r = PendingGet")
    case False
    with GetError show ?thesis by (simp add: shape.frame)
  next
    case True
    then have "r < length (requests s)"
      using pending_ofD [of s r] by simp
    with GetError True show ?thesis by (simp add: shape_downloadData)
  qed
next
  case (XhrProgress r info)
  show ?thesis
  proof (cases "pending_of s r")
    case (PendingXhr u t)
    then have "r < length (requests s)" using pending_ofD [of s r] by simp
    with XhrProgress PendingXhr assms show ?thesis by (simp add: shape_progress)
  qed (simp_all add: XhrProgress shape.frame)
next
  case (XhrLoad r stat msg resp n)
  show ?thesis
  proof (cases "pending_of s r")
    case (PendingXhr u t)
    then have r: "r < length (requests s)"
      using pending_ofD [of s r] by simp
    have "shape s (emit r ''error'' (Text msg) (settle r s))"
      unfolding settle_def using assms r by (intro shape_terminal) simp_all
    with XhrLoad PendingXhr r show ?thesis by (simp add: shape_cacheData)
  qed (simp_all add: XhrLoad shape.frame)
next
  case (XhrError r msg)
  show ?thesis
  proof (cases "pending_of s r")
    case (PendingXhr u t)
    then have r: "r < length (requests s)"
      using pending_ofD [of s r] by simp
    have "shape s (emit r ''error'' (Text msg) (settle r s))"
      unfolding settle_def using assms r by (intro shape_terminal) simp_all
    with XhrError PendingXhr show ?thesis by simp
  qed (simp_all add: XhrError shape.frame)
next
  case (PutSuccess r)
  show ?thesis
  proof (cases "pending_of s r = Idle")
    case True
    with PutSuccess show ?thesis by (simp add: shape.frame)
  next
    case False
    then have "r < length (requests s)" using pending_ofD [of s r] by simp
    then have "shape s (upd_request r (\<lambda>q. q\<lparr> pending := PendingTxn d k f \<rparr>) s)" for d k f
      by (intro shape_pending) simp_all
    with PutSuccess show ?thesis
      by (simp add: shape.frame split: pending_op.splits nat.splits bool.splits)
  qed
next
  case (TxnError r)
  show ?thesis
  proof (cases "pending_of s r = Idle")
    case True
    with TxnError show ?thesis by (simp add: shape.frame)
  next
    case False
    then have "r < length (requests s)" using pending_ofD [of s r] by simp
    then have "shape s (emit r ''data'' p (upd_request r (\<lambda>q. q\<lparr> pending := PendingTxn d k f \<rparr>) s))"
      for p d k f
      using assms by (intro shape_terminal) simp_all
    with TxnError show ?thesis
      by (simp add: shape.frame split: pending_op.splits nat.splits)
  qed
next
  case (TxnComplete r)
  show ?thesis
  proof (cases "pending_of s r = Idle")
    case True
    with TxnComplete show ?thesis by (simp add: shape.frame)
  next
    case False
    then have "r < length (requests s)" using pending_ofD [of s r] by simp
    then have "shape s (emit r ''data'' p (settle r s))" for p
      unfolding settle_def using assms by (intro shape_terminal) simp_all
    with TxnComplete show ?thesis
      by (simp add: shape.frame split: pending_op.splits nat.splits bool.splits)
  qed
next
  case (TxnAbort r)
  show ?thesis
  proof (cases "pending_of s r = Idle")
    case True
    with TxnAbort show ?thesis by (simp add: shape.frame)
  next
    case False
    then have "r < length (requests s)" using pending_ofD [of s r] by simp
    then have "shape s (settle r s)"
      unfolding settle_def by (intro shape_pending) simp_all
    with TxnAbort show ?thesis
      by (simp add: shape.frame split: pending_op.splits nat.splits)
  qed
qed

lemma createRequest_url: "url (createRequest st srv nm t) = join_url srv nm"
  by (cases "srv = []") (simp_all add: createRequest_def join_url_def Let_def last_conv_nth)

lemma addressed_shape:
  assumes "addressed s" "wf s" "shape s s'"
  shows "addressed s'"
proof -
  have A: "well_addressed (records s) (requests s ! r)" if "r < length (requests s)" for r
    using assms(1) that by (simp add: addressed_def)
  have S: "server (requests s ! r) < length (records s)" if "r < length (requests s)" for r
    using assms(2) that by (simp add: wf_def)
  have keep: "well_addressed (records s') q"
    if "well_addressed (records s) q" "server q < length (records s)"
      "map serverUrl (records s') = map serverUrl (records s) @ us" for q us
    using that(1) serverUrl_nth [OF that(3,2)] by (simp add: well_addressed_def)
  from assms(3) show ?thesis
  proof cases
    case frame
    have "well_addressed (records s') (requests s ! r)" if "r < length (requests s)" for r
      using keep [OF A [OF that] S [OF that], of "[]"] frame(2) by simp
    with frame(1) show ?thesis by (simp add: addressed_def)
  next
    case (added u)
    have "well_addressed (records s') (requests s ! r)" if "r < length (requests s)" for r
      using keep [OF A [OF that] S [OF that], of "[u]"] added(2) by simp
    with added(1) show ?thesis by (simp add: addressed_def)
  next
    case (dispatch rec q st t)
    have old: "well_addressed (records s') (requests s ! r)" if "r < length (requests s)" for r
      using keep [OF A [OF that] S [OF that], of "[]"] dispatch(6) by simp
    have "serverUrl (records s' ! rec) = serverUrl (records s ! rec)"
      using serverUrl_nth [of "records s'" "records s" "[]" rec] dispatch(1,6) by simp
    with dispatch(3-5) have new: "well_addressed (records s') q"
      by (auto simp add: well_addressed_def createRequest_url)
    show ?thesis
      unfolding addressed_def
    proof (intro allI impI)
      fix k
      assume "k < length (requests s')"
      with dispatch(2) have "k < length (requests s) \<or> k = length (requests s)"
        by (simp add: less_Suc_eq)
      with old [of k] new dispatch(2) show "well_addressed (records s') (requests s' ! k)"
        by (cases "k = length (requests s)") (simp_all add: nth_append)
    qed
  next
    case (moved r p)
    have "well_addressed (records s) ((requests s ! r)\<lparr> pending := p \<rparr>)"
      using A [OF moved(1)] moved(3) by (auto simp add: well_addressed_def)
    then have "well_addressed (records s') ((requests s ! r)\<lparr> pending := p \<rparr>)"
      using keep [of "(requests s ! r)\<lparr> pending := p \<rparr>" "[]"] S [OF moved(1)] moved(4) by simp
    moreover have "well_addressed (records s') (requests s ! k)" if "k < length (requests s)" for k
      using keep [OF A [OF that] S [OF that], of "[]"] moved(4) by simp
    ultimately have "well_addressed (records s') (requests s' ! k)" if "k < length (requests s)" for k
      using that moved(2) by (cases "k = r") (simp_all add: nth_upd)
    with moved(2) show ?thesis by (simp add: addressed_def)
  qed
qed

lemma placed_run: "placed s \<Longrightarrow> placed (run es s)"
proof (induction es arbitrary: s)
  case Nil
  then show ?case by simp
next
  case (Cons e es)
  from Cons.prems have "placed (fst (step e s))"
    by (simp add: placed_def wf_step addressed_shape [OF _ _ shape_step])
  from Cons.IH [OF this] show ?case by simp
qed

lemma placed_empty: "placed empty_server"
proof -
  have "addressed empty_server"
    by (simp add: addressed_def empty_server_def)
  with wf_empty show ?thesis by (simp add: placed_def)
qed

lemmas run_defs = empty_server_def addContentServer_def removeContentServer_def
  findContentServer_def createDataStore_def deleteDataStore_def close_def opening_of_def
  pending_of_def handleOpenSuccess_def handleUpgrade_def upd_store_def upd_request_def
  upd_record_def store_emit_def on_def handleDataStoreReady_def handleDataStoreClosing_def
  handleDataStoreError_def server_emit_def requestResource_def truthy_def
  chooseContentServer_def createRequest_def start_def queryDataStore_def cacheData_def
  transaction_def downloadData_def Let_def emit_def settle_def handleRequestData_def
  handleRequestError_def handleRequestProgress_def removeAllListeners_def lookup_def
  inherited_def

section \<open>The claims\<close>

text \<open>
  C1 says that origin selection without a usable preferred origin returns the registered
  origin of minimal \<open>loadValue\<close>, the earliest registered among equals. The code does
  not: with origins \<open>A\<close> and \<open>B\<close> registered in this order and three requests in
  flight, two bound to \<open>A\<close> and one to \<open>B\<close>, the loads are 2 and 1 and
  \<open>chooseContentServer\<close> returns \<open>A\<close>; a fourth request without a preferred origin is
  bound to \<open>A\<close>. The loop compares a load value with the index \<open>minid\<close>, which never
  moves away from 0 when no load is 0. With both loads 0 the first origin is returned.
\<close>

theorem chooseContentServer_keeps_first:
  "let s = run [AddServer ''A'', AddServer ''B'', OpenCache ''assets'', OpenSuccess 0 False,
                fetch 1 (Some ''A'') None, fetch 2 (Some ''A'') None, fetch 3 (Some ''B'') None]
             empty_server
   in contentServers s = [0, 1] \<and> map serverUrl (records s) = [''A'', ''B'']
    \<and> map loadValue (records s) = [2, 1]
    \<and> chooseContentServer s = Some 0
    \<and> map server (requests (fst (step (fetch 4 None None) s))) = [0, 0, 1, 0]
    \<and> chooseContentServer (run [AddServer ''A'', AddServer ''B''] empty_server) = Some 0"
  by (simp add: run_defs)

text \<open>
  C2 says that a request which reaches the caching step after a successful download
  completes with one success notification carrying the downloaded data, however the
  cache write ends. The code does so when the write commits and when the second
  \<open>put\<close> alone fails. It does not in two other outcomes of the write. When the commit
  fails after both \<open>put\<close> requests succeeded, the platform fires the transaction's
  abort event only; \<open>cacheData\<close> has no callback for it, the server emits nothing and
  the request is left without a notification. When the first \<open>put\<close> fails, its error
  and the error of the second \<open>put\<close>, answered by the abort, both reach
  \<open>txn.onerror\<close>, and the server emits the success notification twice. When the
  store was closed during the download, \<open>db.transaction\<close> raises and the server
  emits nothing. No outcome emits an error notification.
\<close>

theorem cache_write_failure:
  "let s = run [AddServer ''A'', OpenCache ''assets'', OpenSuccess 0 False,
                fetch 1 None (Some False), XhrLoad 0 200 ''OK'' (Text ''payload'') 7]
             empty_server;
       closed = run [AddServer ''A'', OpenCache ''assets'', OpenSuccess 0 False,
                     fetch 1 None (Some False), DeleteCache ''assets'',
                     XhrLoad 0 200 ''OK'' (Text ''payload'') 7] empty_server;
       msg = OutMessage (ResourceData 1 ''A/x.bin'' ''x.bin'' (Text ''payload'') ''arraybuffer'')
   in pending_of s 0 = PendingTxn (Text ''payload'') 2 False
    \<and> out s = [OutMessage (CacheReady ''assets'')]
    \<and> out (run [PutSuccess 0, PutSuccess 0, TxnComplete 0] s) = out s @ [msg]
    \<and> out (run [PutSuccess 0, TxnError 0, TxnAbort 0] s) = out s @ [msg]
    \<and> out (run [PutSuccess 0, PutSuccess 0, TxnAbort 0] s) = out s
    \<and> pending_of (run [PutSuccess 0, PutSuccess 0, TxnAbort 0] s) 0 = Idle
    \<and> out (run [TxnError 0, TxnError 0, TxnAbort 0] s) = out s @ [msg, msg]
    \<and> out closed = out s \<and> pending_of closed 0 = Idle"
  by (simp add: run_defs)

text \<open>
  C3 says that the load of an origin goes up by 1 when a request is dispatched to it and
  down by 1 at the request's single terminal transition, so that it returns to its value
  and is never negative. The code does not keep this balance on the cache write. One
  request is dispatched to the only origin and its download returns 200, the load being
  1. When the first \<open>put\<close> of the write fails, \<open>txn.onerror\<close> runs for both \<open>put\<close>
  requests and \<open>handleRequestData\<close> decrements the load twice: it goes to 0, then to
  \<open>-1\<close>. When the commit fails after both \<open>put\<close> requests succeeded, no callback of
  \<open>cacheData\<close> runs and the load stays at 1 with no operation of the request pending;
  so it does when the store was closed during the download.
\<close>

theorem load_counter_unbalanced:
  "let s = run [AddServer ''A'', OpenCache ''assets'', OpenSuccess 0 False,
                fetch 1 None (Some False), XhrLoad 0 200 ''OK'' (Text ''payload'') 7]
             empty_server;
       s1 = run [TxnError 0] s;
       s2 = run [TxnError 0] s1;
       s3 = run [TxnAbort 0] s2;
       s' = run [PutSuccess 0, PutSuccess 0, TxnAbort 0] s;
       closed = run [AddServer ''A'', OpenCache ''assets'', OpenSuccess 0 False,
                     fetch 1 None (Some False), DeleteCache ''assets'',
                     XhrLoad 0 200 ''OK'' (Text ''payload'') 7] empty_server
   in map server (requests s3) = [0] \<and> bound_to 0 s3 = 1
    \<and> map loadValue (records s) = [1]
    \<and> map loadValue (records s1) = [0]
    \<and> map loadValue (records s2) = [- 1]
    \<and> map loadValue (records s3) = [- 1] \<and> pending_of s3 0 = Idle
    \<and> map loadValue (records s') = [1] \<and> pending_of s' 0 = Idle \<and> bound_to 0 s' = 1
    \<and> map loadValue (records closed) = [1] \<and> pending_of closed 0 = Idle
    \<and> bound_to 0 closed = 1"
  by (simp add: run_defs bound_to_def)

text \<open>
  C4 says that a started request emits at most one terminal event, and exactly one on
  each of its paths. The code does so on a cache hit and on a failed download. On a
  download followed by the cache write it emits one \<open>'data'\<close> when the write commits,
  two when the first \<open>put\<close> fails (\<open>txn.onerror\<close> runs for each \<open>put\<close> request), and
  none when the commit fails after both \<open>put\<close> requests succeeded, or when the store
  was closed during the download and \<open>db.transaction\<close> raises.
\<close>

theorem terminal_events_per_path:
  "let hit = run [AddServer ''A'', OpenCache ''assets'', OpenSuccess 0 False,
                  fetch 1 None None, GetSuccess 0 (Some ''hit'')] empty_server;
       failed = run [AddServer ''A'', OpenCache ''assets'', OpenSuccess 0 False,
                     fetch 1 None None, GetSuccess 0 None,
                     XhrLoad 0 404 ''Not Found'' NoArg 0] empty_server;
       s = run [AddServer ''A'', OpenCache ''assets'', OpenSuccess 0 False,
                fetch 1 None (Some False), XhrLoad 0 200 ''OK'' (Text ''payload'') 7]
             empty_server;
       closed = run [AddServer ''A'', OpenCache ''assets'', OpenSuccess 0 False,
                     fetch 1 None (Some False), DeleteCache ''assets'',
                     XhrLoad 0 200 ''OK'' (Text ''payload'') 7] empty_server
   in terminal_events 0 hit = [(0, ''data'')]
    \<and> terminal_events 0 failed = [(0, ''error'')]
    \<and> started (requests s ! 0)
    \<and> terminal_events 0 (run [PutSuccess 0, PutSuccess 0, TxnComplete 0] s) = [(0, ''data'')]
    \<and> terminal_events 0 (run [TxnError 0, TxnError 0, TxnAbort 0] s)
        = [(0, ''data''), (0, ''data'')]
    \<and> terminal_events 0 (run [PutSuccess 0, PutSuccess 0, TxnAbort 0] s) = []
    \<and> pending_of (run [PutSuccess 0, PutSuccess 0, TxnAbort 0] s) 0 = Idle
    \<and> started (requests closed ! 0) \<and> terminal_events 0 closed = []
    \<and> pending_of closed 0 = Idle"
  by (simp add: run_defs terminal_events_def terminal_def)

text \<open>
  C5: a \<open>requestResource\<close> call naming a cache that is not in the store map, or whose
  store is not ready, emits one error with the caller's request id and changes nothing
  else: no origin record, no request, no store.
\<close>

theorem requestResource_cache_not_ready:
  assumes "dataStores s (cacheName a) = None
         \<or> (\<exists>st. dataStores s (cacheName a) = Some st \<and> \<not> ready (stores s ! st))"
  shows "step (GetResource a) s =
           (s\<lparr> out := out s @ [OutError (Text (''Cache '' @ cacheName a @ '' is not ready.''))
                                 (Some (requestId a))] \<rparr>, None)"
  using assms by (auto simp add: requestResource_cases usable_def lookup_def)

text \<open>C5 at a request made right after \<open>openCache\<close>, before the store is ready.\<close>

theorem requestResource_cache_not_ready_witness:
  "let s = run [OpenCache ''assets''] empty_server
   in dataStores s ''assets'' = None
    \<and> step (fetch 1 None None) s
        = (s\<lparr> out := out s @ [OutError (Text ''Cache assets is not ready.'') (Some 1)] \<rparr>, None)"
proof -
  define s where "s = run [OpenCache ''assets''] empty_server"
  have h: "dataStores s ''assets'' = None"
    unfolding s_def by (simp add: run_defs)
  have "dataStores s ''assets'' = None
    \<and> step (fetch 1 None None) s
        = (s\<lparr> out := out s @ [OutError (Text ''Cache assets is not ready.'') (Some 1)] \<rparr>, None)"
    using h requestResource_cache_not_ready [of s "\<lparr> requestId = 1, cacheName = ''assets'',
      preferredServer = None, resourceName = ''x.bin'', responseType = None, returnCached = None \<rparr>"]
    by simp
  then show ?thesis unfolding s_def Let_def .
qed

text \<open>
  C6 says that a request against a ready cache with an empty registry is answered by an
  error event carrying the request id. The code does not emit one:
  \<open>chooseContentServer\<close> returns \<open>null\<close>, \<open>requestResource\<close> reads
  \<open>serverRecord.serverUrl\<close> and raises TypeError, and the state, the server's output
  included, is as before.
\<close>

theorem requestResource_empty_registry:
  "let s = run [OpenCache ''assets'', OpenSuccess 0 False] empty_server
   in contentServers s = [] \<and> dataStores s ''assets'' = Some 0 \<and> ready (stores s ! 0)
    \<and> step (fetch 1 None None) s = (s, Some TypeError)"
  by (simp add: run_defs)

text \<open>
  C7 says that the terminal notification detaches all subscriptions of the request. The
  handlers call \<open>removeAllListeners()\<close> without an event name, which clears the entry
  named \<open>"undefined"\<close> only: after a cache hit the three subscriptions are still in
  place, a later \<open>'progress'\<close> of the request still reaches the server's handler, and a
  second \<open>'data'\<close> would decrement the origin's load below zero.
\<close>

theorem listeners_stay_subscribed:
  "let s = run [AddServer ''A'', OpenCache ''assets'', OpenSuccess 0 False, fetch 1 None None,
                GetSuccess 0 (Some ''hit'')] empty_server
   in emitted s = [(0, ''data'')]
    \<and> listeners (requests s ! 0) ''data'' = Some [HandleRequestData]
    \<and> listeners (requests s ! 0) ''error'' = Some [HandleRequestError]
    \<and> listeners (requests s ! 0) ''progress'' = Some [HandleRequestProgress]
    \<and> out (emit 0 ''progress'' (Info None) s) = out s @ [OutMessage (Progress 1 Fixed99)]
    \<and> loadValue (records s ! 0) = 0
    \<and> loadValue (records (emit 0 ''data'' (Text ''hit'') s) ! 0) = - 1"
  by (simp add: run_defs)

text \<open>
  C8 says that a write-back against a store removed by \<open>deleteCache\<close> ends in a success
  notification. \<open>deleteCache\<close> does remove the store record at once, and it closes the
  connection; when the download then returns 200, \<open>cacheData\<close> calls
  \<open>db.transaction\<close> on the closed connection, which raises InvalidStateError before
  any callback is installed: no notification is emitted then or later, and the origin's
  load stays at 1.
\<close>

theorem write_back_on_closed_store:
  "let s = run [AddServer ''A'', OpenCache ''assets'', OpenSuccess 0 False,
                fetch 1 None (Some False), DeleteCache ''assets''] empty_server;
       s' = run [XhrLoad 0 200 ''OK'' (Text ''payload'') 7, TxnComplete 0, TxnError 0] s
   in dataStores s ''assets'' = None
    \<and> pending_of s 0 = PendingXhr ''A/x.bin'' ''arraybuffer''
    \<and> snd (step (XhrLoad 0 200 ''OK'' (Text ''payload'') 7) s) = Some InvalidStateError
    \<and> out s' = out s \<and> emitted s' = [] \<and> pending_of s' 0 = Idle
    \<and> loadValue (records s' ! 0) = 1"
  by (simp add: run_defs)

text \<open>
  C9 says that the transfer is opened on \<open>originUrl + '/' + resourceName\<close> for every
  origin URL, the empty one included. For the empty origin the URL is the resource name
  alone.
\<close>

theorem empty_origin_url:
  "pending_of (run [AddServer '''', OpenCache ''assets'', OpenSuccess 0 False,
                    fetch 1 None (Some False)] empty_server) 0
     = PendingXhr ''x.bin'' ''arraybuffer''
   \<and> ''x.bin'' \<noteq> '''' @ ''/'' @ ''x.bin''"
  by (simp add: run_defs)

text \<open>
  C9, amended: in every reachable state a transfer in flight was opened on the URL of
  its request's origin, followed by a slash only when that URL is not empty and does not
  already end in one, followed by the resource name; its \<open>responseType\<close> is the
  request's.
\<close>

theorem download_url:
  assumes "s = run es empty_server" "pending_of s r = PendingXhr u t"
  shows "u = (let srv = serverUrl (records s ! server (requests s ! r)); nm = key (requests s ! r)
              in if srv \<noteq> [] \<and> last srv \<noteq> CHR ''/'' then srv @ ''/'' @ nm else srv @ nm)
       \<and> t = rtype (requests s ! r)"
proof -
  have "placed s" unfolding assms(1) by (rule placed_run [OF placed_empty])
  then have "addressed s" by (simp add: placed_def)
  moreover from assms(2) have "r < length (requests s)" "pending (requests s ! r) = PendingXhr u t"
    by (simp_all add: pending_of_def split: if_splits)
  ultimately have "well_addressed (records s) (requests s ! r)"
    "pending (requests s ! r) = PendingXhr u t"
    by (simp_all add: addressed_def)
  then have "url (requests s ! r) = join_url (serverUrl (records s ! server (requests s ! r))) (key (requests s ! r))"
    "u = url (requests s ! r)" "t = rtype (requests s ! r)"
    by (simp_all add: well_addressed_def)
  then show ?thesis
    by (simp add: join_url_def Let_def)
qed

text \<open>C9, amended, at a request served from \<open>http://cdn\<close>.\<close>

theorem download_url_witness:
  "let s = run [AddServer ''http://cdn'', OpenCache ''assets'', OpenSuccess 0 False,
                fetch 1 None (Some False)] empty_server
   in pending_of s 0 = PendingXhr ''http://cdn/x.bin'' ''arraybuffer''
    \<and> serverUrl (records s ! server (requests s ! 0)) = ''http://cdn''
    \<and> key (requests s ! 0) = ''x.bin'' \<and> rtype (requests s ! 0) = ''arraybuffer''"
proof -
  define s where "s = run [AddServer ''http://cdn'', OpenCache ''assets'', OpenSuccess 0 False,
    fetch 1 None (Some False)] empty_server"
  have h: "pending_of s 0 = PendingXhr ''http://cdn/x.bin'' ''arraybuffer''"
    unfolding s_def by (simp add: run_defs)
  have k: "serverUrl (records s ! server (requests s ! 0)) = ''http://cdn''"
    "key (requests s ! 0) = ''x.bin''"
    unfolding s_def by (simp_all add: run_defs)
  have "pending_of s 0 = PendingXhr ''http://cdn/x.bin'' ''arraybuffer''
    \<and> serverUrl (records s ! server (requests s ! 0)) = ''http://cdn''
    \<and> key (requests s ! 0) = ''x.bin'' \<and> rtype (requests s ! 0) = ''arraybuffer''"
    using h k download_url [OF s_def h, THEN conjunct2] by simp
  then show ?thesis unfolding s_def Let_def .
qed

text \<open>
  C10 says that the store map has an entry for a name only from the \<open>'ready'\<close> event of
  a store of that name, and that until then a second \<open>openCache\<close> of the name constructs
  and opens a second store. The code does so for a name like \<open>assets\<close>: two calls give
  two stores, both opening, and no entry. It does not for a name that \<open>Object.prototype\<close>
  defines: \<open>this.dataStores['constructor']\<close> is truthy in the initial state, with no
  store and no \<open>'ready'\<close> event, so the first and the second \<open>openCache('constructor')\<close>
  construct nothing and no store of that name can be opened, and
  \<open>deleteCache('constructor')\<close> calls \<open>close\<close> on the inherited member and raises
  TypeError.
\<close>

theorem createDataStore_inherited_name:
  "let s = run [OpenCache ''constructor'', OpenCache ''constructor''] empty_server;
       s' = run [OpenCache ''assets'', OpenCache ''assets''] empty_server
   in lookup empty_server ''constructor'' = Inherited
    \<and> stores s = [] \<and> dataStores s ''constructor'' = None
    \<and> step (OpenCache ''constructor'') s = (s, None)
    \<and> step (DeleteCache ''constructor'') s = (s, Some TypeError)
    \<and> lookup empty_server ''assets'' = Undefined
    \<and> map name (stores s') = [''assets'', ''assets'']
    \<and> map open_state (stores s') = [Opening, Opening]
    \<and> dataStores s' ''assets'' = None"
  by (simp add: run_defs)

end
